theory Spec2Isabelle
  imports Complex_Main
begin

section \<open>Results of a call\<close>

text \<open>
  A C++ call either returns, stops at a failed \<open>assert\<close>, or runs into behaviour the
  language leaves undefined (a read or write outside a container, a null pointer, signed
  overflow, a floating value converted to an integer type that cannot hold it). The last
  two are values of the model: \<open>Inl AssertionFailed\<close> and \<open>Inl Undefined\<close>.

  A \<open>double\<close> is modelled as a \<open>real\<close>: arithmetic is exact, there is no NaN and no
  infinity. The decisions the code takes (comparisons, truncations, which cells are
  written) are the subject of this development, not rounding.
\<close>

datatype error = AssertionFailed | Undefined

fun and_then :: "error + 'a \<Rightarrow> ('a \<Rightarrow> error + 'b) \<Rightarrow> error + 'b" where
  "and_then (Inl e) f = Inl e"
| "and_then (Inr x) f = f x"

text \<open>A counted \<open>for\<close> loop without \<open>break\<close>: the body is run on each index in turn,
  on the state the previous iteration left, and the loop stops at the first failure.\<close>

fun for_each :: "'i list \<Rightarrow> ('i \<Rightarrow> 's \<Rightarrow> error + 's) \<Rightarrow> 's \<Rightarrow> error + 's" where
  "for_each [] body s = Inr s"
| "for_each (i # is) body s = and_then (body i s) (for_each is body)"

section \<open>Machine integers and conversions\<close>

definition INT_MIN :: int where
  "INT_MIN = - 2147483648"

definition INT_MAX :: int where
  "INT_MAX = 2147483647"

text \<open>\<open>(int) x\<close> for a double \<open>x\<close>: the fractional part is discarded (truncation towards
  zero); the conversion is undefined when the truncated value does not fit an \<open>int\<close>.\<close>

definition trunc_int :: "real \<Rightarrow> int" where
  "trunc_int x = (if x < 0 then \<lceil>x\<rceil> else \<lfloor>x\<rfloor>)"

definition int_castable :: "real \<Rightarrow> bool" where
  "int_castable x \<longleftrightarrow> INT_MIN \<le> trunc_int x \<and> trunc_int x \<le> INT_MAX"

definition int_cast :: "real \<Rightarrow> error + int" where
  "int_cast x = (if int_castable x then Inr (trunc_int x) else Inl Undefined)"

text \<open>\<open>a + b\<close> on \<open>int\<close>: signed overflow is undefined.\<close>

definition int_add :: "int \<Rightarrow> int \<Rightarrow> error + int" where
  "int_add a b = (if INT_MIN \<le> a + b \<and> a + b \<le> INT_MAX then Inr (a + b) else Inl Undefined)"

text \<open>A \<open>size_t\<close> stored into an \<open>int\<close>: the value is reduced modulo \<open>2^32\<close> into the
  range of \<open>int\<close>.\<close>

definition size_to_int :: "nat \<Rightarrow> int" where
  "size_to_int k = (int k + 2147483648) mod 4294967296 - 2147483648"

section \<open>The containers\<close>

text \<open>
  Modelled from the spec: the \<open>Matrix\<close> and \<open>Vector\<close> containers of the base library,
  which are declared outside this repository's sources. A matrix has a row count, a column
  count, one \<open>double\<close> per cell and a label per column; \<open>M[p][c]\<close> is defined for
  \<open>p < rows\<close> and \<open>c < cols\<close> only; \<open>Dimension\<close> sets the shape, \<open>Zero\<close> sets every
  cell to \<open>0.0\<close>. A vector is a list of \<open>double\<close>s, indexed inside its length only.
\<close>

record Matrix =
  rows :: nat
  cols :: nat
  cell :: "nat \<Rightarrow> nat \<Rightarrow> real"
  columnLabel :: "nat \<Rightarrow> string"

definition mat_get :: "Matrix \<Rightarrow> nat \<Rightarrow> nat \<Rightarrow> error + real" where
  "mat_get M p c = (if p < rows M \<and> c < cols M then Inr (cell M p c) else Inl Undefined)"

definition mat_put :: "Matrix \<Rightarrow> nat \<Rightarrow> nat \<Rightarrow> real \<Rightarrow> error + Matrix" where
  "mat_put M p c v =
     (if p < rows M \<and> c < cols M
      then Inr (M\<lparr>cell := (cell M)(p := (cell M p)(c := v))\<rparr>)
      else Inl Undefined)"

definition Dimension :: "Matrix \<Rightarrow> nat \<Rightarrow> nat \<Rightarrow> Matrix" where
  "Dimension M r c = M\<lparr>rows := r, cols := c\<rparr>"

definition Zero :: "Matrix \<Rightarrow> Matrix" where
  "Zero M = M\<lparr>cell := (\<lambda>p c. 0)\<rparr>"

definition GetColumnLabel :: "Matrix \<Rightarrow> nat \<Rightarrow> error + string" where
  "GetColumnLabel M c = (if c < cols M then Inr (columnLabel M c) else Inl Undefined)"

definition vec_get :: "real list \<Rightarrow> nat \<Rightarrow> error + real" where
  "vec_get v p = (if p < length v then Inr (v ! p) else Inl Undefined)"

text \<open>A matrix written row by row, for concrete inputs; the columns carry empty labels.\<close>

definition matrix_of :: "real list list \<Rightarrow> Matrix" where
  "matrix_of xs =
     \<lparr>rows = length xs,
      cols = (case xs of [] \<Rightarrow> 0 | r # _ \<Rightarrow> length r),
      cell = (\<lambda>p c. xs ! p ! c),
      columnLabel = (\<lambda>c. [])\<rparr>"

text \<open>The cell \<open>(p, c)\<close> of the matrix a call returned.\<close>

definition entry :: "error + Matrix \<Rightarrow> nat \<Rightarrow> nat \<Rightarrow> error + real" where
  "entry r p c = and_then r (\<lambda>M. mat_get M p c)"

section \<open>Allele frequencies (ModelFitter.cpp)\<close>

text \<open>
  \<open>getMarkerFrequency\<close>: the loop carries the allele count \<open>ac\<close> (a double) and the
  allele number \<open>an\<close> (an int). A sample counts when \<open>(int) in[p][col] >= 0\<close>.
\<close>

definition freq_body :: "Matrix \<Rightarrow> nat \<Rightarrow> nat \<Rightarrow> real \<times> int \<Rightarrow> error + real \<times> int" where
  "freq_body M col p s =
     (case s of (ac, an) \<Rightarrow>
        and_then (mat_get M p col) (\<lambda>x.
        and_then (int_cast x) (\<lambda>g.
          if g \<ge> 0
          then and_then (int_add an 2) (\<lambda>an'. Inr (ac + x, an'))
          else Inr (ac, an))))"

definition getMarkerFrequency :: "Matrix \<Rightarrow> nat \<Rightarrow> error + real" where
  "getMarkerFrequency M col =
     and_then (for_each [0..<rows M] (freq_body M col) (0, 0)) (\<lambda>s.
       case s of (ac, an) \<Rightarrow> if an = 0 then Inr 0 else Inr (ac / of_int an))"

text \<open>
  \<open>getMarkerFrequencyFromControl\<close>: samples with \<open>pheno[p] == 1\<close> are skipped; a sample
  counts when \<open>in[p][col] >= 0\<close> (no conversion); the estimate is
  \<open>(ac + 1) / (an + 2)\<close>.
\<close>

definition freq_control_body ::
  "Matrix \<Rightarrow> real list \<Rightarrow> nat \<Rightarrow> nat \<Rightarrow> real \<times> int \<Rightarrow> error + real \<times> int" where
  "freq_control_body M ph col p s =
     (case s of (ac, an) \<Rightarrow>
        and_then (vec_get ph p) (\<lambda>y.
          if y = 1 then Inr (ac, an)
          else and_then (mat_get M p col) (\<lambda>x.
            if x \<ge> 0
            then and_then (int_add an 2) (\<lambda>an'. Inr (ac + x, an'))
            else Inr (ac, an))))"

definition getMarkerFrequencyFromControl :: "Matrix \<Rightarrow> real list \<Rightarrow> nat \<Rightarrow> error + real" where
  "getMarkerFrequencyFromControl M ph col =
     and_then (for_each [0..<rows M] (freq_control_body M ph col) (0, 0)) (\<lambda>s.
       case s of (ac, an) \<Rightarrow>
         and_then (int_add an 2) (\<lambda>d. Inr (1 * (ac + 1) / of_int d)))"

section \<open>Collapsing (ModelFitter.cpp)\<close>

text \<open>
  An output parameter \<open>Matrix* out\<close> is an optional matrix: \<open>None\<close> is the null pointer,
  which \<open>assert(out)\<close> rejects. Every collapsing function returns the matrix that \<open>out\<close>
  points to when the call ends. The input and the output matrix are taken to be distinct
  objects.
\<close>

subsection \<open>CMC\<close>

text \<open>The inner loop of \<open>cmcCollapse(in, out)\<close> for sample \<open>p\<close>: the markers are scanned
  in order and the scan ends (\<open>break\<close>) at the first one with \<open>(int) in[p][m] > 0\<close>.\<close>

fun cmc_scan :: "Matrix \<Rightarrow> nat \<Rightarrow> nat list \<Rightarrow> Matrix \<Rightarrow> error + Matrix" where
  "cmc_scan M p [] out = Inr out"
| "cmc_scan M p (m # ms) out =
     and_then (mat_get M p m) (\<lambda>x.
     and_then (int_cast x) (\<lambda>g.
       if g > 0 then mat_put out p 0 1 else cmc_scan M p ms out))"

definition cmcCollapse :: "Matrix \<Rightarrow> Matrix option \<Rightarrow> error + Matrix" where
  "cmcCollapse M out =
     (case out of
        None \<Rightarrow> Inl AssertionFailed
      | Some out0 \<Rightarrow>
          for_each [0..<rows M] (\<lambda>p. cmc_scan M p [0..<cols M])
            (Zero (Dimension out0 (rows M) 1)))"

text \<open>The indexed variant: the columns come from a \<open>std::vector<int>\<close>, the target column
  is the \<open>int outIndex\<close>; a negative \<open>int\<close> used as a column is outside every matrix. The
  output matrix is neither reshaped nor zeroed.\<close>

definition column_of :: "int \<Rightarrow> error + nat" where
  "column_of i = (if i < 0 then Inl Undefined else Inr (nat i))"

fun cmc_scan_index :: "Matrix \<Rightarrow> nat \<Rightarrow> int list \<Rightarrow> int \<Rightarrow> Matrix \<Rightarrow> error + Matrix" where
  "cmc_scan_index M p [] outIndex out = Inr out"
| "cmc_scan_index M p (i # is) outIndex out =
     and_then (column_of i) (\<lambda>m.
     and_then (mat_get M p m) (\<lambda>x.
     and_then (int_cast x) (\<lambda>g.
       if g > 0 then and_then (column_of outIndex) (\<lambda>c. mat_put out p c 1)
       else cmc_scan_index M p is outIndex out)))"

definition cmcCollapse_index ::
  "Matrix \<Rightarrow> int list \<Rightarrow> Matrix option \<Rightarrow> int \<Rightarrow> error + Matrix" where
  "cmcCollapse_index M index out outIndex =
     (case out of
        None \<Rightarrow> Inl AssertionFailed
      | Some out0 \<Rightarrow>
          if rows out0 \<noteq> rows M then Inl AssertionFailed
          else if \<not> int (cols out0) > outIndex then Inl AssertionFailed
          else for_each [0..<rows M] (\<lambda>p. cmc_scan_index M p index outIndex) out0)"

subsection \<open>Morris-Zeggini\<close>

definition zeggini_body :: "Matrix \<Rightarrow> nat \<Rightarrow> nat \<Rightarrow> Matrix \<Rightarrow> error + Matrix" where
  "zeggini_body M p m out =
     and_then (mat_get M p m) (\<lambda>x.
     and_then (int_cast x) (\<lambda>g.
       if g > 0
       then and_then (mat_get out p 0) (\<lambda>old. mat_put out p 0 (old + 1))
       else Inr out))"

definition zegginiCollapse :: "Matrix \<Rightarrow> Matrix option \<Rightarrow> error + Matrix" where
  "zegginiCollapse M out =
     (case out of
        None \<Rightarrow> Inl AssertionFailed
      | Some out0 \<Rightarrow>
          for_each [0..<rows M] (\<lambda>p. for_each [0..<cols M] (zeggini_body M p))
            (Zero (Dimension out0 (rows M) 1)))"

subsection \<open>Weighted sums\<close>

text \<open>The statement \<open>(*out)[p][0] += in[p][m] * weight\<close>.\<close>

definition add_weighted :: "Matrix \<Rightarrow> nat \<Rightarrow> real \<Rightarrow> nat \<Rightarrow> Matrix \<Rightarrow> error + Matrix" where
  "add_weighted M m weight p out =
     and_then (mat_get M p m) (\<lambda>g.
     and_then (mat_get out p 0) (\<lambda>old. mat_put out p 0 (old + g * weight)))"

text \<open>\<open>madsonBrowningCollapse(genotype, phenotype, out)\<close>: the weights come from the
  frequency among the controls.\<close>

definition madsonBrowningCollapse_pheno ::
  "Matrix \<Rightarrow> real list \<Rightarrow> Matrix option \<Rightarrow> error + Matrix" where
  "madsonBrowningCollapse_pheno genotype phenotype out =
     (case out of
        None \<Rightarrow> Inl AssertionFailed
      | Some out0 \<Rightarrow>
          for_each [0..<cols genotype]
            (\<lambda>m acc.
               and_then (getMarkerFrequencyFromControl genotype phenotype m) (\<lambda>freq.
                 if freq \<le> 0 \<or> freq \<ge> 1 then Inr acc
                 else
                   let weight = 1 / sqrt (freq * (1 - freq) * real (rows genotype))
                   in for_each [0..<rows genotype] (add_weighted genotype m weight) acc))
            (Zero (Dimension out0 (rows genotype) 1)))"

definition fpCollapse :: "Matrix \<Rightarrow> Matrix option \<Rightarrow> error + Matrix" where
  "fpCollapse M out =
     (case out of
        None \<Rightarrow> Inl AssertionFailed
      | Some out0 \<Rightarrow>
          for_each [0..<cols M]
            (\<lambda>m acc.
               and_then (getMarkerFrequency M m) (\<lambda>freq.
                 if freq \<le> 0 \<or> freq \<ge> 1 then Inr acc
                 else
                   let weight = 1 / sqrt (freq * (1 - freq))
                   in for_each [0..<rows M] (add_weighted M m weight) acc))
            (Zero (Dimension out0 (rows M) 1)))"

text \<open>\<open>madsonBrowningCollapse(d, out)\<close>: \<open>out\<close> is asserted, \<open>d\<close> is dereferenced
  unchecked.\<close>

definition madsonBrowningCollapse_matrix ::
  "Matrix option \<Rightarrow> Matrix option \<Rightarrow> error + Matrix" where
  "madsonBrowningCollapse_matrix d out =
     (case out of
        None \<Rightarrow> Inl AssertionFailed
      | Some out0 \<Rightarrow>
          (case d of
             None \<Rightarrow> Inl Undefined
           | Some M \<Rightarrow>
               for_each [0..<cols M]
                 (\<lambda>m acc.
                    and_then (getMarkerFrequency M m) (\<lambda>freq.
                      if freq \<le> 0 \<or> freq \<ge> 1 then Inr acc
                      else
                        let weight = 1 / sqrt (freq * (1 - freq))
                        in for_each [0..<rows M] (add_weighted M m weight) acc))
                 (Zero (Dimension out0 (rows M) 1))))"

subsection \<open>Grouping by frequency\<close>

text \<open>\<open>groupFrequency\<close>: the map is cleared; the loop runs while \<open>i < 0\<close> from \<open>i = 0\<close>,
  over the empty range of indices. Its body appends \<open>i\<close> to the entry of \<open>freq[i]\<close>,
  creating the entry when the key is new.\<close>

definition group_body :: "real list \<Rightarrow> nat \<Rightarrow> (real \<rightharpoonup> int list) \<Rightarrow> error + (real \<rightharpoonup> int list)" where
  "group_body freq i g =
     and_then (vec_get freq i) (\<lambda>f.
       Inr (g(f \<mapsto> (case g f of None \<Rightarrow> [] | Some is \<Rightarrow> is) @ [int i])))"

definition groupFrequency :: "real list \<Rightarrow> (real \<rightharpoonup> int list) \<Rightarrow> error + (real \<rightharpoonup> int list)" where
  "groupFrequency freq grp = for_each [0..<0] (group_body freq) Map.empty"

section \<open>Summaries (Summary.h)\<close>

record Summary =
  s_min :: real
  s_q1 :: real
  s_median :: real
  s_q3 :: real
  s_max :: real
  s_mean :: real
  s_sd :: real
  s_n :: int

text \<open>The constructor \<open>Summary()\<close>.\<close>

definition Summary_init :: Summary where
  "Summary_init =
     \<lparr>s_min = 0, s_q1 = 0, s_median = 0, s_q3 = 0, s_max = 0, s_mean = 0, s_sd = 0, s_n = 0\<rparr>"

text \<open>\<open>t[i]\<close> on a \<open>std::vector<double>\<close> with an \<open>int\<close> or a \<open>double\<close> index: the index
  is converted to \<open>size_t\<close> (a double by truncation), and a negative \<open>int\<close> or a value past
  the end is outside the vector.\<close>

definition vec_at :: "real list \<Rightarrow> int \<Rightarrow> error + real" where
  "vec_at t i = (if 0 \<le> i \<and> i < int (length t) then Inr (t ! nat i) else Inl Undefined)"

definition vec_at_double :: "real list \<Rightarrow> real \<Rightarrow> error + real" where
  "vec_at_double t x = vec_at t (trunc_int x)"

text \<open>
  \<open>Summary::add\<close>. The helpers \<open>calculateMean\<close> and \<open>calculateSampleSD\<close> are declared in
  \<open>CommonFunction.h\<close>, outside the sources at hand: they are parameters of the model.
  The field \<open>n\<close> receives \<open>v.size()\<close> converted to \<open>int\<close>.
\<close>

definition Summary_add ::
  "(real list \<Rightarrow> real) \<Rightarrow> (real list \<Rightarrow> real) \<Rightarrow> real list \<Rightarrow> Summary \<Rightarrow> error + Summary" where
  "Summary_add calculateMean calculateSampleSD v s =
     (let k = size_to_int (length v);
          t = sort v
      in and_then (vec_at t 0) (\<lambda>mn.
         and_then (vec_at_double t (of_int k * 0.25)) (\<lambda>a.
         and_then (vec_at_double t (of_int k * 0.5)) (\<lambda>b.
         and_then (vec_at_double t (of_int k * 0.75)) (\<lambda>c.
         and_then (vec_at t (k - 1)) (\<lambda>mx.
           Inr (s\<lparr>s_n := k, s_min := mn, s_q1 := a, s_median := b, s_q3 := c, s_max := mx,
                  s_mean := calculateMean v, s_sd := calculateSampleSD v\<rparr>)))))))"

record SummaryHeader =
  phenoLabel :: "string list"
  pheno :: "Summary list"
  transformedPheno :: Summary
  inverseNormalized :: bool
  covLabel :: "string list"
  cov :: "Summary list"

text \<open>The constructor \<open>SummaryHeader()\<close>.\<close>

definition SummaryHeader_init :: SummaryHeader where
  "SummaryHeader_init =
     \<lparr>phenoLabel = [], pheno = [], transformedPheno = Summary_init, inverseNormalized = False,
      covLabel = [], cov = []\<rparr>"

definition vec_set :: "real list \<Rightarrow> nat \<Rightarrow> real \<Rightarrow> error + real list" where
  "vec_set v i x = (if i < length v then Inr (v[i := x]) else Inl Undefined)"

definition recordCovariateColumn ::
  "(real list \<Rightarrow> real) \<Rightarrow> (real list \<Rightarrow> real) \<Rightarrow> Matrix \<Rightarrow> nat \<Rightarrow> SummaryHeader
     \<Rightarrow> error + SummaryHeader" where
  "recordCovariateColumn calculateMean calculateSampleSD M col h =
     and_then
       (for_each [0..<rows M] (\<lambda>i v. and_then (mat_get M i col) (vec_set v i))
          (replicate (rows M) 0)) (\<lambda>v.
     and_then (Summary_add calculateMean calculateSampleSD v Summary_init) (\<lambda>s.
       Inr (h\<lparr>cov := cov h @ [s]\<rparr>)))"

definition recordCovariate ::
  "(real list \<Rightarrow> real) \<Rightarrow> (real list \<Rightarrow> real) \<Rightarrow> Matrix \<Rightarrow> SummaryHeader
     \<Rightarrow> error + SummaryHeader" where
  "recordCovariate calculateMean calculateSampleSD M h =
     for_each [0..<cols M]
       (\<lambda>i h'.
          and_then (GetColumnLabel M i) (\<lambda>l.
            recordCovariateColumn calculateMean calculateSampleSD M i
              (h'\<lparr>covLabel := covLabel h' @ [l]\<rparr>)))
       (h\<lparr>covLabel := [], cov := []\<rparr>)"

section \<open>Specification functions\<close>

text \<open>The matrix \<open>out\<close> with the cell \<open>(p, c)\<close> set to 1 for every sample \<open>p\<close> below \<open>k\<close>
  that satisfies \<open>Q\<close>, and every other cell as it was.\<close>

definition mark_rows :: "Matrix \<Rightarrow> nat \<Rightarrow> nat \<Rightarrow> (nat \<Rightarrow> bool) \<Rightarrow> Matrix" where
  "mark_rows out c k Q =
     out\<lparr>cell := (\<lambda>p c'. if p < k \<and> c' = c \<and> Q p then 1 else cell out p c')\<rparr>"

text \<open>The matrix \<open>out\<close> with \<open>x\<close> added to the cell \<open>(p, 0)\<close>.\<close>

definition add_cell :: "Matrix \<Rightarrow> nat \<Rightarrow> real \<Rightarrow> Matrix" where
  "add_cell out p x = out\<lparr>cell := (cell out)(p := (cell out p)(0 := cell out p 0 + x))\<rparr>"

text \<open>The matrix \<open>out\<close> with \<open>f p\<close> added to the cell \<open>(p, 0)\<close> of every sample \<open>p\<close>
  below \<open>k\<close>.\<close>

definition add_rows :: "Matrix \<Rightarrow> nat \<Rightarrow> (nat \<Rightarrow> real) \<Rightarrow> Matrix" where
  "add_rows out k f =
     out\<lparr>cell := (\<lambda>p c. if p < k \<and> c = 0 then cell out p 0 + f p else cell out p c)\<rparr>"

text \<open>The number of markers of sample \<open>p\<close> with \<open>(int) genotype > 0\<close>.\<close>

definition carried_markers :: "Matrix \<Rightarrow> nat \<Rightarrow> nat" where
  "carried_markers M p = length (filter (\<lambda>m. 0 < trunc_int (cell M p m)) [0..<cols M])"

text \<open>What marker \<open>m\<close> adds to the score of sample \<open>p\<close> in a weighted sum, given the
  frequency estimates \<open>freq\<close> and the weight as a function of the frequency; and the
  score, the sum over the markers.\<close>

definition contribution ::
  "Matrix \<Rightarrow> (nat \<Rightarrow> real) \<Rightarrow> (real \<Rightarrow> real) \<Rightarrow> nat \<Rightarrow> nat \<Rightarrow> real" where
  "contribution M freq weight p m =
     (if freq m \<le> 0 \<or> freq m \<ge> 1 then 0 else cell M p m * weight (freq m))"

definition weighted_score ::
  "Matrix \<Rightarrow> (nat \<Rightarrow> real) \<Rightarrow> (real \<Rightarrow> real) \<Rightarrow> nat \<Rightarrow> real" where
  "weighted_score M freq weight p = (\<Sum>m<cols M. contribution M freq weight p m)"

text \<open>The column \<open>col\<close> of a matrix, top to bottom.\<close>

definition column :: "Matrix \<Rightarrow> nat \<Rightarrow> real list" where
  "column M col = map (\<lambda>i. cell M i col) [0..<rows M]"

text \<open>The summary of the observations \<open>v\<close>: nearest-rank quartiles read from the sorted
  copy at the indices \<open>floor (n * 0.25)\<close>, \<open>floor (n * 0.5)\<close> and \<open>floor (n * 0.75)\<close>.\<close>

definition summary_of :: "(real list \<Rightarrow> real) \<Rightarrow> (real list \<Rightarrow> real) \<Rightarrow> real list \<Rightarrow> Summary" where
  "summary_of calculateMean calculateSampleSD v =
     \<lparr>s_min = sort v ! 0,
      s_q1 = sort v ! nat \<lfloor>real (length v) * 0.25\<rfloor>,
      s_median = sort v ! nat \<lfloor>real (length v) * 0.5\<rfloor>,
      s_q3 = sort v ! nat \<lfloor>real (length v) * 0.75\<rfloor>,
      s_max = sort v ! (length v - 1),
      s_mean = calculateMean v,
      s_sd = calculateSampleSD v,
      s_n = int (length v)\<rparr>"

section \<open>Loops and conversions: basic facts\<close>

lemma for_each_append:
  "for_each (xs @ ys) body s = and_then (for_each xs body s) (for_each ys body)"
proof (induction xs arbitrary: s)
  case Nil
  show ?case by simp
next
  case (Cons x xs)
  show ?case
  proof (cases "body x s")
    case (Inl e)
    then show ?thesis by simp
  next
    case (Inr s')
    then show ?thesis using Cons.IH [of s'] by simp
  qed
qed

lemma for_each_snoc:
  "for_each (xs @ [x]) body s = and_then (for_each xs body s) (body x)"
proof -
  have "and_then (body x s') (for_each [] body) = body x s'" for s'
    by (cases "body x s'") simp_all
  then have "for_each [x] body = body x"
    by (simp add: fun_eq_iff)
  then show ?thesis
    by (simp add: for_each_append)
qed

lemma trunc_int_neg_iff: "trunc_int x < 0 \<longleftrightarrow> x \<le> - 1"
  by (auto simp: trunc_int_def ceiling_less_iff)

lemma trunc_int_pos_iff: "0 < trunc_int x \<longleftrightarrow> 1 \<le> x"
  by (auto simp: trunc_int_def)

lemma int_castable_small: "int_castable 0" "int_castable 1" "int_castable 2" "int_castable (1 / 2)"
  by (simp_all add: int_castable_def trunc_int_def INT_MIN_def INT_MAX_def)

lemma trunc_int_small: "trunc_int 0 = 0" "trunc_int 1 = 1" "trunc_int 2 = 2" "trunc_int (1 / 2) = 0"
  by (simp_all add: trunc_int_def)

lemma trunc_int_minus_one: "trunc_int (- 1) = - 1"
  by (simp add: trunc_int_def ceiling_eq_iff)

lemma int_castable_minus_one: "int_castable (- 1)"
  by (simp add: int_castable_def trunc_int_minus_one INT_MIN_def INT_MAX_def)

lemma sqrt_quarter: "sqrt (1 / 4) = 1 / 2"
  by (simp add: real_sqrt_divide)

lemma add_cell_shape [simp]:
  "rows (add_cell out p x) = rows out" "cols (add_cell out p x) = cols out"
  by (simp_all add: add_cell_def)

lemma add_cell_0: "add_cell out p 0 = out"
  by (simp add: add_cell_def)

lemma add_cell_add_cell: "add_cell (add_cell out p x) p y = add_cell out p (x + y)"
  by (simp add: add_cell_def add.assoc)

lemma add_rows_shape [simp]:
  "rows (add_rows out k f) = rows out" "cols (add_rows out k f) = cols out"
  by (simp_all add: add_rows_def)

lemma add_rows_Suc: "add_cell (add_rows out k f) k (f k) = add_rows out (Suc k) f"
proof -
  have "(cell (add_rows out k f))
       (k := (cell (add_rows out k f) k)(0 := cell (add_rows out k f) k 0 + f k))
     = cell (add_rows out (Suc k) f)"
    by (auto simp: add_rows_def fun_eq_iff less_Suc_eq)
  then show ?thesis by (simp add: add_rows_def add_cell_def)
qed

lemma add_rows_0: "add_rows out 0 f = out"
  by (simp add: add_rows_def)

lemma add_rows_add_rows:
  "add_rows (add_rows out k f) k g = add_rows out k (\<lambda>p. f p + g p)"
proof -
  have "cell (add_rows (add_rows out k f) k g) = cell (add_rows out k (\<lambda>p. f p + g p))"
    by (auto simp: add_rows_def fun_eq_iff)
  then show ?thesis by (simp add: add_rows_def)
qed

lemma add_rows_cong: "(\<And>p. p < k \<Longrightarrow> f p = g p) \<Longrightarrow> add_rows out k f = add_rows out k g"
proof -
  assume "\<And>p. p < k \<Longrightarrow> f p = g p"
  then have "cell (add_rows out k f) = cell (add_rows out k g)"
    by (auto simp: add_rows_def fun_eq_iff)
  then show ?thesis by (simp add: add_rows_def)
qed

lemma add_rows_zero: "add_rows out k (\<lambda>p. 0) = out"
proof -
  have "(\<lambda>p c. if p < k \<and> c = 0 then cell out p 0 + 0 else cell out p c) = cell out"
    by (auto simp: fun_eq_iff)
  then show ?thesis by (simp add: add_rows_def)
qed

section \<open>Properties of the allele frequencies\<close>

subsection \<open>The frequency among the controls\<close>

lemma freq_control_loop:
  assumes "col < cols M" and "rows M \<le> length ph" and "rows M \<le> 1073741822"
    and "\<forall>p<rows M. cell M p col \<le> 2"
  shows "k \<le> rows M \<Longrightarrow>
    \<exists>ac an. for_each [0..<k] (freq_control_body M ph col) (0, 0) = Inr (ac, an)
       \<and> 0 \<le> ac \<and> ac \<le> of_int an \<and> 0 \<le> an \<and> an \<le> 2 * int k"
proof (induction k)
  case 0
  show ?case by simp
next
  case (Suc k)
  then obtain ac an where loop: "for_each [0..<k] (freq_control_body M ph col) (0, 0) = Inr (ac, an)"
    and inv: "0 \<le> ac" "ac \<le> of_int an" "0 \<le> an" "an \<le> 2 * int k"
    by auto
  from Suc.prems assms have k: "k < rows M" "k < length ph" "cell M k col \<le> 2"
    and fits: "an + 2 \<le> INT_MAX" "INT_MIN \<le> an + 2"
    using inv by (auto simp: INT_MAX_def INT_MIN_def)
  have step: "for_each [0..<Suc k] (freq_control_body M ph col) (0, 0)
      = freq_control_body M ph col k (ac, an)"
    using loop by (simp add: for_each_snoc)
  have "\<exists>ac' an'. freq_control_body M ph col k (ac, an) = Inr (ac', an')
       \<and> 0 \<le> ac' \<and> ac' \<le> of_int an' \<and> 0 \<le> an' \<and> an' \<le> 2 * int (Suc k)"
    using inv k fits assms(1)
    by (auto simp: freq_control_body_def vec_get_def mat_get_def int_add_def)
  with step show ?case by (simp only:)
qed

text \<open>
  C5, as the code has it. When the genotypes of the marker lie between 0 and 2 (the range
  of a dosage), the phenotype vector covers every sample and the matrix has at most
  \<open>2^30 - 2\<close> rows (so that the \<open>int\<close> allele number cannot overflow),
  \<open>getMarkerFrequencyFromControl\<close> returns a value strictly between 0 and 1.
\<close>

theorem getMarkerFrequencyFromControl_open_interval:
  assumes "col < cols M" and "rows M \<le> length ph" and "rows M \<le> 1073741822"
    and "\<forall>p<rows M. 0 \<le> cell M p col \<and> cell M p col \<le> 2"
  shows "\<exists>f. getMarkerFrequencyFromControl M ph col = Inr f \<and> 0 < f \<and> f < 1"
proof -
  from assms(4) have "\<forall>p<rows M. cell M p col \<le> 2" by simp
  from freq_control_loop [OF assms(1-3) this, of "rows M"]
  obtain ac an where loop: "for_each [0..<rows M] (freq_control_body M ph col) (0, 0) = Inr (ac, an)"
    and inv: "0 \<le> ac" "ac \<le> of_int an" "0 \<le> an" "an \<le> 2 * int (rows M)"
    by auto
  from inv assms(3) have fits: "INT_MIN \<le> an + 2" "an + 2 \<le> INT_MAX"
    by (simp_all add: INT_MIN_def INT_MAX_def)
  then have res: "getMarkerFrequencyFromControl M ph col = Inr ((ac + 1) / of_int (an + 2))"
    using loop by (simp add: getMarkerFrequencyFromControl_def int_add_def)
  have "0 < (ac + 1) / of_int (an + 2)"
    using inv by simp
  moreover have "(ac + 1) / of_int (an + 2) < 1"
    using inv by simp
  ultimately show ?thesis using res by blast
qed

theorem getMarkerFrequencyFromControl_open_interval_witness:
  "\<exists>f. getMarkerFrequencyFromControl (matrix_of [[2], [0]]) [0, 1] 0 = Inr f \<and> 0 < f \<and> f < 1"
  using getMarkerFrequencyFromControl_open_interval [of 0 "matrix_of [[2], [0]]" "[0, 1]"]
  by (simp add: matrix_of_def less_Suc_eq)

text \<open>
  C5, as stated, fails: non-negative genotypes above 2 are enough to leave the open
  interval. One control with genotype 3 gives \<open>(3 + 1) / (2 + 2)\<close>, exactly 1.
\<close>

theorem getMarkerFrequencyFromControl_reaches_one:
  "0 \<le> cell (matrix_of [[3]]) 0 0
   \<and> getMarkerFrequencyFromControl (matrix_of [[3]]) [0] 0 = Inr 1"
  by (simp add: getMarkerFrequencyFromControl_def matrix_of_def freq_control_body_def
      mat_get_def vec_get_def int_add_def INT_MIN_def INT_MAX_def)

subsection \<open>The unconditional frequency\<close>

lemma int_cast_half: "int_cast (- (1 / 2)) = Inr 0"
  by (simp add: int_cast_def int_castable_def trunc_int_def INT_MIN_def INT_MAX_def ceiling_eq_iff)

text \<open>
  C2. A column whose only entry is \<open>-1/2\<close> is all negative, yet \<open>getMarkerFrequency\<close>
  returns \<open>-1/4\<close> and not 0: \<open>(int) in[p][col]\<close> truncates \<open>-1/2\<close> to 0, the test
  \<open>>= 0\<close> passes and the sample is counted.
\<close>

theorem getMarkerFrequency_fractional_negative:
  "cell (matrix_of [[- 1 / 2]]) 0 0 < 0
   \<and> getMarkerFrequency (matrix_of [[- 1 / 2]]) 0 = Inr (- 1 / 4)"
  by (simp add: getMarkerFrequency_def matrix_of_def freq_body_def mat_get_def int_cast_half
      int_add_def INT_MIN_def INT_MAX_def)

text \<open>Where every entry of the column truncates to a negative \<open>int\<close>, that is, is at
  most \<open>-1\<close>, no sample is counted and the frequency is 0.\<close>

lemma freq_loop_all_missing:
  assumes "col < cols M"
    and "\<forall>p<rows M. int_castable (cell M p col) \<and> cell M p col \<le> - 1"
  shows "k \<le> rows M \<Longrightarrow> for_each [0..<k] (freq_body M col) (0, 0) = Inr (0, 0)"
proof (induction k)
  case 0
  show ?case by simp
next
  case (Suc k)
  then have loop: "for_each [0..<k] (freq_body M col) (0, 0) = Inr (0, 0)" by simp
  from Suc.prems assms have "k < rows M" "int_castable (cell M k col)" "trunc_int (cell M k col) < 0"
    by (auto simp: trunc_int_neg_iff)
  then have "freq_body M col k (0, 0) = Inr (0, 0)"
    using assms(1) by (simp add: freq_body_def mat_get_def int_cast_def)
  then show ?case using loop by (simp add: for_each_snoc)
qed

lemma getMarkerFrequency_all_missing:
  assumes "col < cols M"
    and "\<forall>p<rows M. int_castable (cell M p col) \<and> cell M p col \<le> - 1"
  shows "getMarkerFrequency M col = Inr 0"
  using freq_loop_all_missing [OF assms, of "rows M"]
  by (simp add: getMarkerFrequency_def)

subsection \<open>Both frequencies return\<close>

lemma freq_loop_total:
  assumes "col < cols M" and "rows M \<le> 1073741823"
    and "\<forall>p<rows M. int_castable (cell M p col)"
  shows "k \<le> rows M \<Longrightarrow>
    \<exists>ac an. for_each [0..<k] (freq_body M col) (0, 0) = Inr (ac, an) \<and> 0 \<le> an \<and> an \<le> 2 * int k"
proof (induction k)
  case 0
  show ?case by simp
next
  case (Suc k)
  then obtain ac an where loop: "for_each [0..<k] (freq_body M col) (0, 0) = Inr (ac, an)"
    and inv: "0 \<le> an" "an \<le> 2 * int k"
    by auto
  from Suc.prems assms have k: "k < rows M" "int_castable (cell M k col)"
    and fits: "an + 2 \<le> INT_MAX" "INT_MIN \<le> an + 2"
    using inv by (auto simp: INT_MAX_def INT_MIN_def)
  have step: "for_each [0..<Suc k] (freq_body M col) (0, 0) = freq_body M col k (ac, an)"
    using loop by (simp add: for_each_snoc)
  have "\<exists>ac' an'. freq_body M col k (ac, an) = Inr (ac', an') \<and> 0 \<le> an' \<and> an' \<le> 2 * int (Suc k)"
    using inv k fits assms(1)
    by (auto simp: freq_body_def mat_get_def int_cast_def int_add_def)
  with step show ?case by (simp only:)
qed

lemma getMarkerFrequency_total:
  assumes "col < cols M" and "rows M \<le> 1073741823"
    and "\<forall>p<rows M. int_castable (cell M p col)"
  shows "\<exists>f. getMarkerFrequency M col = Inr f"
proof -
  from freq_loop_total [OF assms, of "rows M"]
  obtain ac an where "for_each [0..<rows M] (freq_body M col) (0, 0) = Inr (ac, an)"
    by auto
  then show ?thesis by (simp add: getMarkerFrequency_def)
qed

lemma freq_control_loop_total:
  assumes "col < cols M" and "rows M \<le> length ph" and "rows M \<le> 1073741822"
  shows "k \<le> rows M \<Longrightarrow>
    \<exists>ac an. for_each [0..<k] (freq_control_body M ph col) (0, 0) = Inr (ac, an)
       \<and> 0 \<le> an \<and> an \<le> 2 * int k"
proof (induction k)
  case 0
  show ?case by simp
next
  case (Suc k)
  then obtain ac an where loop: "for_each [0..<k] (freq_control_body M ph col) (0, 0) = Inr (ac, an)"
    and inv: "0 \<le> an" "an \<le> 2 * int k"
    by auto
  from Suc.prems assms have k: "k < rows M" "k < length ph"
    and fits: "an + 2 \<le> INT_MAX" "INT_MIN \<le> an + 2"
    using inv by (auto simp: INT_MAX_def INT_MIN_def)
  have step: "for_each [0..<Suc k] (freq_control_body M ph col) (0, 0)
      = freq_control_body M ph col k (ac, an)"
    using loop by (simp add: for_each_snoc)
  have "\<exists>ac' an'. freq_control_body M ph col k (ac, an) = Inr (ac', an')
       \<and> 0 \<le> an' \<and> an' \<le> 2 * int (Suc k)"
    using inv k fits assms(1)
    by (auto simp: freq_control_body_def vec_get_def mat_get_def int_add_def)
  with step show ?case by (simp only:)
qed

lemma getMarkerFrequencyFromControl_total:
  assumes "col < cols M" and "rows M \<le> length ph" and "rows M \<le> 1073741822"
  shows "\<exists>f. getMarkerFrequencyFromControl M ph col = Inr f"
proof -
  from freq_control_loop_total [OF assms, of "rows M"]
  obtain ac an where loop: "for_each [0..<rows M] (freq_control_body M ph col) (0, 0) = Inr (ac, an)"
    and inv: "0 \<le> an" "an \<le> 2 * int (rows M)"
    by auto
  from inv assms(3) have "INT_MIN \<le> an + 2" "an + 2 \<le> INT_MAX"
    by (simp_all add: INT_MIN_def INT_MAX_def)
  then show ?thesis using loop by (simp add: getMarkerFrequencyFromControl_def int_add_def)
qed

section \<open>Properties of the grouping by frequency\<close>

text \<open>
  C9. Whatever the frequency list and the previous contents of the map, \<open>groupFrequency\<close>
  returns with the empty map: it clears the map and its loop inserts nothing.
\<close>

theorem groupFrequency_empty: "groupFrequency freq grp = Inr Map.empty"
  by (simp add: groupFrequency_def)

section \<open>Properties of CMC\<close>

lemma mark_rows_Suc:
  "(if Q k
    then (mark_rows out c k Q)
           \<lparr>cell := (cell (mark_rows out c k Q))(k := (cell (mark_rows out c k Q) k)(c := 1))\<rparr>
    else mark_rows out c k Q) = mark_rows out c (Suc k) Q"
proof (cases "Q k")
  case True
  have "(cell (mark_rows out c k Q))(k := (cell (mark_rows out c k Q) k)(c := 1))
      = cell (mark_rows out c (Suc k) Q)"
    using True by (auto simp: mark_rows_def fun_eq_iff less_Suc_eq)
  then show ?thesis using True by (simp add: mark_rows_def)
next
  case False
  have "cell (mark_rows out c k Q) = cell (mark_rows out c (Suc k) Q)"
    using False by (auto simp: mark_rows_def fun_eq_iff less_Suc_eq)
  then show ?thesis using False by (simp add: mark_rows_def)
qed

lemma cmc_scan_result:
  assumes "p < rows M" and "p < rows out" and "0 < cols out"
  shows "\<forall>m\<in>set ms. m < cols M \<and> int_castable (cell M p m) \<Longrightarrow>
    cmc_scan M p ms out =
      Inr (if \<exists>m\<in>set ms. 0 < trunc_int (cell M p m)
           then out\<lparr>cell := (cell out)(p := (cell out p)(0 := 1))\<rparr> else out)"
proof (induction ms)
  case Nil
  show ?case by simp
next
  case (Cons m ms)
  then have m: "m < cols M" "int_castable (cell M p m)" by simp_all
  show ?case
  proof (cases "0 < trunc_int (cell M p m)")
    case True
    then show ?thesis
      using assms m by (simp add: mat_get_def int_cast_def mat_put_def)
  next
    case False
    then show ?thesis
      using assms m Cons by (simp add: mat_get_def int_cast_def)
  qed
qed

lemma cmc_rows:
  assumes "\<forall>p<rows M. \<forall>m<cols M. int_castable (cell M p m)"
    and "rows out = rows M" and "0 < cols out"
  shows "k \<le> rows M \<Longrightarrow>
    for_each [0..<k] (\<lambda>p. cmc_scan M p [0..<cols M]) out =
      Inr (mark_rows out 0 k (\<lambda>p. \<exists>m<cols M. 0 < trunc_int (cell M p m)))"
proof (induction k)
  case 0
  show ?case by (simp add: mark_rows_def)
next
  case (Suc k)
  let ?Q = "\<lambda>p. \<exists>m<cols M. 0 < trunc_int (cell M p m)"
  let ?out = "mark_rows out 0 k ?Q"
  from Suc have loop: "for_each [0..<k] (\<lambda>p. cmc_scan M p [0..<cols M]) out = Inr ?out"
    by simp
  have k: "k < rows M" "k < rows ?out" "0 < cols ?out"
    using Suc.prems assms by (simp_all add: mark_rows_def)
  have cast: "\<forall>m\<in>set [0..<cols M]. m < cols M \<and> int_castable (cell M k m)"
    using assms(1) k(1) by simp
  have "cmc_scan M k [0..<cols M] ?out =
      Inr (if ?Q k then ?out\<lparr>cell := (cell ?out)(k := (cell ?out k)(0 := 1))\<rparr> else ?out)"
    using cmc_scan_result [OF k cast] by (simp add: Bex_def)
  also have "(if ?Q k then ?out\<lparr>cell := (cell ?out)(k := (cell ?out k)(0 := 1))\<rparr> else ?out)
      = mark_rows out 0 (Suc k) ?Q"
    by (rule mark_rows_Suc)
  finally show ?case using loop by (simp add: for_each_snoc)
qed

lemma cmc_scan_index_result:
  assumes "p < rows M" and "p < rows out" and "0 \<le> outIndex" and "nat outIndex < cols out"
  shows "\<forall>i\<in>set is. 0 \<le> i \<and> nat i < cols M \<and> int_castable (cell M p (nat i)) \<Longrightarrow>
    cmc_scan_index M p is outIndex out =
      Inr (if \<exists>i\<in>set is. 0 < trunc_int (cell M p (nat i))
           then out\<lparr>cell := (cell out)(p := (cell out p)(nat outIndex := 1))\<rparr> else out)"
proof (induction "is")
  case Nil
  show ?case by simp
next
  case (Cons i "is")
  then have i: "0 \<le> i" "nat i < cols M" "int_castable (cell M p (nat i))" by simp_all
  show ?case
  proof (cases "0 < trunc_int (cell M p (nat i))")
    case True
    then show ?thesis
      using assms i by (simp add: column_of_def mat_get_def int_cast_def mat_put_def)
  next
    case False
    then show ?thesis
      using assms i Cons by (simp add: column_of_def mat_get_def int_cast_def)
  qed
qed

lemma cmc_index_rows:
  assumes "\<forall>p<rows M. \<forall>i\<in>set index. 0 \<le> i \<and> nat i < cols M \<and> int_castable (cell M p (nat i))"
    and "rows out = rows M" and "0 \<le> outIndex" and "nat outIndex < cols out"
  shows "k \<le> rows M \<Longrightarrow>
    for_each [0..<k] (\<lambda>p. cmc_scan_index M p index outIndex) out =
      Inr (mark_rows out (nat outIndex) k (\<lambda>p. \<exists>i\<in>set index. 0 < trunc_int (cell M p (nat i))))"
proof (induction k)
  case 0
  show ?case by (simp add: mark_rows_def)
next
  case (Suc k)
  let ?Q = "\<lambda>p. \<exists>i\<in>set index. 0 < trunc_int (cell M p (nat i))"
  let ?out = "mark_rows out (nat outIndex) k ?Q"
  from Suc have loop:
    "for_each [0..<k] (\<lambda>p. cmc_scan_index M p index outIndex) out = Inr ?out"
    by simp
  have k: "k < rows M" "k < rows ?out" and c: "nat outIndex < cols ?out"
    using Suc.prems assms by (simp_all add: mark_rows_def)
  have cast: "\<forall>i\<in>set index. 0 \<le> i \<and> nat i < cols M \<and> int_castable (cell M k (nat i))"
    using assms(1) k(1) by simp
  have "cmc_scan_index M k index outIndex ?out =
      Inr (if ?Q k then ?out\<lparr>cell := (cell ?out)(k := (cell ?out k)(nat outIndex := 1))\<rparr>
           else ?out)"
    using cmc_scan_index_result [OF k assms(3) c cast] by simp
  also have "(if ?Q k then ?out\<lparr>cell := (cell ?out)(k := (cell ?out k)(nat outIndex := 1))\<rparr>
           else ?out) = mark_rows out (nat outIndex) (Suc k) ?Q"
    by (rule mark_rows_Suc)
  finally show ?case using loop by (simp add: for_each_snoc)
qed

text \<open>
  C3, as the code has it. Where every genotype can be converted to \<open>int\<close>,
  \<open>cmcCollapse(in, out)\<close> gives sample \<open>p\<close> the output 1 when some marker has
  \<open>(int) genotype > 0\<close>, that is, a genotype of at least 1, and 0 otherwise. The indexed
  variant, called on valid column indices with an output matrix of the input's row count
  and a column \<open>outIndex\<close>, sets \<open>out[p][outIndex]\<close> to 1 when some marker among the
  indices has \<open>(int) genotype > 0\<close> and leaves the value it found there otherwise.
\<close>

theorem cmcCollapse_indicator:
  assumes "\<forall>p<rows M. \<forall>m<cols M. int_castable (cell M p m)" and "p < rows M"
  shows "entry (cmcCollapse M (Some out0)) p 0 =
           Inr (if \<exists>m<cols M. 0 < trunc_int (cell M p m) then 1 else 0)
       \<and> (rows out0 = rows M \<and> 0 \<le> outIndex \<and> outIndex < int (cols out0)
            \<and> (\<forall>i\<in>set index. 0 \<le> i \<and> i < int (cols M)) \<longrightarrow>
          entry (cmcCollapse_index M index (Some out0) outIndex) p (nat outIndex) =
            Inr (if \<exists>i\<in>set index. 0 < trunc_int (cell M p (nat i)) then 1
                 else cell out0 p (nat outIndex)))"
proof (intro conjI impI)
  let ?z = "Zero (Dimension out0 (rows M) 1)"
  have "cmcCollapse M (Some out0) =
      Inr (mark_rows ?z 0 (rows M) (\<lambda>p. \<exists>m<cols M. 0 < trunc_int (cell M p m)))"
    using cmc_rows [OF assms(1), of ?z "rows M"]
    by (simp add: cmcCollapse_def Zero_def Dimension_def)
  then show "entry (cmcCollapse M (Some out0)) p 0 =
           Inr (if \<exists>m<cols M. 0 < trunc_int (cell M p m) then 1 else 0)"
    using assms(2) by (simp add: entry_def mat_get_def mark_rows_def Zero_def Dimension_def)
next
  assume h: "rows out0 = rows M \<and> 0 \<le> outIndex \<and> outIndex < int (cols out0)
            \<and> (\<forall>i\<in>set index. 0 \<le> i \<and> i < int (cols M))"
  then have cast: "\<forall>p<rows M. \<forall>i\<in>set index.
      0 \<le> i \<and> nat i < cols M \<and> int_castable (cell M p (nat i))"
    using assms(1) by auto
  from h have c: "nat outIndex < cols out0" by auto
  have "cmcCollapse_index M index (Some out0) outIndex =
      Inr (mark_rows out0 (nat outIndex) (rows M)
             (\<lambda>p. \<exists>i\<in>set index. 0 < trunc_int (cell M p (nat i))))"
    using cmc_index_rows [OF cast _ _ c, of "rows M"] h
    by (simp add: cmcCollapse_index_def)
  then show "entry (cmcCollapse_index M index (Some out0) outIndex) p (nat outIndex) =
            Inr (if \<exists>i\<in>set index. 0 < trunc_int (cell M p (nat i)) then 1
                 else cell out0 p (nat outIndex))"
    using assms(2) h c by (simp add: entry_def mat_get_def mark_rows_def)
qed

theorem cmcCollapse_indicator_witness:
  "entry (cmcCollapse (matrix_of [[0, 1], [2, 0], [0, 0]]) (Some (matrix_of []))) 1 0 = Inr 1
   \<and> entry (cmcCollapse_index (matrix_of [[0, 1], [2, 0], [0, 0]]) [1]
             (Some (matrix_of [[5], [5], [5]])) 0) 1 0 = Inr 5"
  using cmcCollapse_indicator [of "matrix_of [[0, 1], [2, 0], [0, 0]]" 1 "matrix_of []"]
    cmcCollapse_indicator [of "matrix_of [[0, 1], [2, 0], [0, 0]]" 1 "matrix_of [[5], [5], [5]]" 0 "[1]"]
  by (simp add: matrix_of_def less_Suc_eq int_castable_small trunc_int_small
      conj_disj_distribR ex_disj_distrib)

text \<open>
  C3, as stated, fails twice. A genotype of \<open>1/2\<close> is greater than 0, yet the sample's
  output is 0: \<open>(int) 0.5\<close> is 0. And the indexed variant, on a sample without a
  qualifying marker, leaves the prior value of the output cell, here 5, which is neither
  0 nor 1.
\<close>

theorem cmcCollapse_fractional_dosage:
  "0 < cell (matrix_of [[1 / 2]]) 0 0
   \<and> entry (cmcCollapse (matrix_of [[1 / 2]]) (Some (matrix_of []))) 0 0 = Inr 0
   \<and> entry (cmcCollapse_index (matrix_of [[0]]) [0] (Some (matrix_of [[5]])) 0) 0 0 = Inr 5"
  by (simp add: matrix_of_def cmcCollapse_def cmcCollapse_index_def Zero_def Dimension_def
      entry_def mat_get_def mat_put_def column_of_def int_cast_def int_castable_small trunc_int_small)

text \<open>
  C8. The indexed \<open>cmcCollapse\<close>, called with an output matrix that has the input's row
  count and more than \<open>outIndex\<close> columns (and with a non-negative \<open>outIndex\<close>, valid
  column indices and convertible genotypes, so that every access is defined), returns an
  output matrix of the same shape in which every cell outside column \<open>outIndex\<close> is
  unchanged, every cell of column \<open>outIndex\<close> is either unchanged or 1, and the cell
  of a sample with no qualifying marker among the indices is unchanged.
\<close>

theorem cmcCollapse_index_frame:
  assumes "rows out0 = rows M" and "outIndex < int (cols out0)"
    and "0 \<le> outIndex" and "\<forall>i\<in>set index. 0 \<le> i \<and> i < int (cols M)"
    and "\<forall>p<rows M. \<forall>m<cols M. int_castable (cell M p m)"
  shows "\<exists>out'. cmcCollapse_index M index (Some out0) outIndex = Inr out'
      \<and> rows out' = rows out0 \<and> cols out' = cols out0
      \<and> (\<forall>p c. c \<noteq> nat outIndex \<longrightarrow> cell out' p c = cell out0 p c)
      \<and> (\<forall>p. cell out' p (nat outIndex) = cell out0 p (nat outIndex)
             \<or> cell out' p (nat outIndex) = 1)
      \<and> (\<forall>p. \<not> (\<exists>i\<in>set index. 0 < trunc_int (cell M p (nat i))) \<longrightarrow>
             cell out' p (nat outIndex) = cell out0 p (nat outIndex))"
proof -
  have cast: "\<forall>p<rows M. \<forall>i\<in>set index.
      0 \<le> i \<and> nat i < cols M \<and> int_castable (cell M p (nat i))"
    using assms(4,5) by auto
  from assms(2,3) have c: "nat outIndex < cols out0" by auto
  have "cmcCollapse_index M index (Some out0) outIndex =
      Inr (mark_rows out0 (nat outIndex) (rows M)
             (\<lambda>p. \<exists>i\<in>set index. 0 < trunc_int (cell M p (nat i))))"
    using cmc_index_rows [OF cast assms(1,3) c, of "rows M"] assms(1,2)
    by (simp add: cmcCollapse_index_def)
  then show ?thesis
    by (simp add: mark_rows_def)
qed

theorem cmcCollapse_index_frame_witness:
  "entry (cmcCollapse_index (matrix_of [[0, 1], [2, 0], [0, 0]]) [0]
             (Some (matrix_of [[5, 7], [5, 7], [5, 7]])) 0) 1 1 = Inr 7
   \<and> entry (cmcCollapse_index (matrix_of [[0, 1], [2, 0], [0, 0]]) [0]
             (Some (matrix_of [[5, 7], [5, 7], [5, 7]])) 0) 0 0 = Inr 5"
  using cmcCollapse_index_frame [of "matrix_of [[5, 7], [5, 7], [5, 7]]"
      "matrix_of [[0, 1], [2, 0], [0, 0]]" 0 "[0]"]
  by (auto simp: matrix_of_def less_Suc_eq int_castable_small trunc_int_small entry_def mat_get_def)

section \<open>Properties of Morris-Zeggini\<close>

lemma zeggini_body_result:
  assumes "p < rows M" and "p < rows out" and "0 < cols out"
    and "m < cols M" and "int_castable (cell M p m)"
  shows "zeggini_body M p m out =
    Inr (add_cell out p (if 0 < trunc_int (cell M p m) then 1 else 0))"
  using assms by (simp add: zeggini_body_def mat_get_def mat_put_def int_cast_def add_cell_def)

lemma zeggini_markers:
  assumes "p < rows M" and "p < rows out" and "0 < cols out"
    and "\<forall>m<cols M. int_castable (cell M p m)"
  shows "j \<le> cols M \<Longrightarrow>
    for_each [0..<j] (zeggini_body M p) out =
      Inr (add_cell out p (real (length (filter (\<lambda>m. 0 < trunc_int (cell M p m)) [0..<j]))))"
proof (induction j)
  case 0
  show ?case by (simp add: add_cell_0)
next
  case (Suc j)
  let ?n = "real (length (filter (\<lambda>m. 0 < trunc_int (cell M p m)) [0..<j]))"
  from Suc.prems have "j \<le> cols M" by simp
  from Suc.IH [OF this] have loop:
    "for_each [0..<j] (zeggini_body M p) out = Inr (add_cell out p ?n)" .
  from Suc.prems assms have j: "j < cols M" "int_castable (cell M p j)" by simp_all
  have "zeggini_body M p j (add_cell out p ?n) =
      Inr (add_cell out p (?n + (if 0 < trunc_int (cell M p j) then 1 else 0)))"
    using zeggini_body_result [OF assms(1) _ _ j, of "add_cell out p ?n"] assms(2,3)
    by (simp add: add_cell_add_cell)
  also have "?n + (if 0 < trunc_int (cell M p j) then 1 else 0)
      = real (length (filter (\<lambda>m. 0 < trunc_int (cell M p m)) [0..<Suc j]))"
    by simp
  finally show ?case using loop by (simp add: for_each_snoc)
qed

lemma zeggini_rows:
  assumes "\<forall>p<rows M. \<forall>m<cols M. int_castable (cell M p m)"
    and "rows out = rows M" and "0 < cols out"
  shows "k \<le> rows M \<Longrightarrow>
    for_each [0..<k] (\<lambda>p. for_each [0..<cols M] (zeggini_body M p)) out =
      Inr (add_rows out k (\<lambda>p. real (carried_markers M p)))"
proof (induction k)
  case 0
  show ?case by (simp add: add_rows_0)
next
  case (Suc k)
  let ?f = "\<lambda>p. real (carried_markers M p)"
  let ?out = "add_rows out k ?f"
  from Suc.prems have "k \<le> rows M" by simp
  from Suc.IH [OF this] have loop:
    "for_each [0..<k] (\<lambda>p. for_each [0..<cols M] (zeggini_body M p)) out = Inr ?out" .
  have k: "k < rows M" "k < rows ?out" "0 < cols ?out"
    using Suc.prems assms by simp_all
  have cast: "\<forall>m<cols M. int_castable (cell M k m)"
    using assms(1) k(1) by simp
  have "for_each [0..<cols M] (zeggini_body M k) ?out = Inr (add_cell ?out k (?f k))"
    using zeggini_markers [OF k cast, of "cols M"]
    by (simp add: carried_markers_def)
  then show ?case using loop add_rows_Suc [of out k ?f] by (simp add: for_each_snoc)
qed

text \<open>
  C4, as the code has it. Where every genotype can be converted to \<open>int\<close>,
  \<open>zegginiCollapse\<close> gives sample \<open>p\<close> the number of markers with \<open>(int) genotype > 0\<close>,
  that is, with a genotype of at least 1.
\<close>

theorem zegginiCollapse_count:
  assumes "\<forall>p<rows M. \<forall>m<cols M. int_castable (cell M p m)" and "p < rows M"
  shows "entry (zegginiCollapse M (Some out0)) p 0 =
           Inr (real (length (filter (\<lambda>m. 0 < trunc_int (cell M p m)) [0..<cols M])))"
proof -
  let ?z = "Zero (Dimension out0 (rows M) 1)"
  have "zegginiCollapse M (Some out0) =
      Inr (add_rows ?z (rows M) (\<lambda>p. real (carried_markers M p)))"
    using zeggini_rows [OF assms(1), of ?z "rows M"]
    by (simp add: zegginiCollapse_def Zero_def Dimension_def)
  then show ?thesis
    using assms(2)
    by (simp add: entry_def mat_get_def add_rows_def Zero_def Dimension_def carried_markers_def)
qed

theorem zegginiCollapse_count_witness:
  "entry (zegginiCollapse (matrix_of [[0, 1], [2, 1], [0, 0]]) (Some (matrix_of []))) 1 0 = Inr 2"
  using zegginiCollapse_count [of "matrix_of [[0, 1], [2, 1], [0, 0]]" 1 "matrix_of []"]
  by (simp add: matrix_of_def less_Suc_eq int_castable_small trunc_int_small)

text \<open>
  C4, as stated, fails: a genotype of \<open>1/2\<close> is greater than 0, and the sample's count
  is 0, since \<open>(int) 0.5\<close> is 0.
\<close>

theorem zegginiCollapse_fractional_dosage:
  "0 < cell (matrix_of [[1 / 2]]) 0 0
   \<and> entry (zegginiCollapse (matrix_of [[1 / 2]]) (Some (matrix_of []))) 0 0 = Inr 0"
  by (simp add: matrix_of_def zegginiCollapse_def Zero_def Dimension_def zeggini_body_def
      entry_def mat_get_def int_cast_def int_castable_small trunc_int_small)

section \<open>Properties of the weighted sums\<close>

lemma add_weighted_result:
  assumes "p < rows M" and "m < cols M" and "p < rows out" and "0 < cols out"
  shows "add_weighted M m w p out = Inr (add_cell out p (cell M p m * w))"
  using assms by (simp add: add_weighted_def mat_get_def mat_put_def add_cell_def)

lemma weighted_rows:
  assumes "m < cols M" and "rows out = rows M" and "0 < cols out"
  shows "k \<le> rows M \<Longrightarrow>
    for_each [0..<k] (add_weighted M m w) out = Inr (add_rows out k (\<lambda>p. cell M p m * w))"
proof (induction k)
  case 0
  show ?case by (simp add: add_rows_0)
next
  case (Suc k)
  let ?f = "\<lambda>p. cell M p m * w"
  from Suc.prems have "k \<le> rows M" by simp
  from Suc.IH [OF this] have loop:
    "for_each [0..<k] (add_weighted M m w) out = Inr (add_rows out k ?f)" .
  have "add_weighted M m w k (add_rows out k ?f) = Inr (add_cell (add_rows out k ?f) k (?f k))"
    using add_weighted_result [of k M m "add_rows out k ?f" w] Suc.prems assms by simp
  then show ?case using loop add_rows_Suc [of out k ?f] by (simp add: for_each_snoc)
qed

lemma weighted_markers:
  assumes "\<forall>m<cols M. F m = Inr (f m)" and "rows out = rows M" and "0 < cols out"
  shows "j \<le> cols M \<Longrightarrow>
    for_each [0..<j]
      (\<lambda>m acc. and_then (F m) (\<lambda>freq.
         if freq \<le> 0 \<or> freq \<ge> 1 then Inr acc
         else let weight = W freq in for_each [0..<rows M] (add_weighted M m weight) acc))
      out
    = Inr (add_rows out (rows M) (\<lambda>p. \<Sum>m<j. contribution M f W p m))"
proof (induction j)
  case 0
  show ?case by (simp add: add_rows_zero)
next
  case (Suc j)
  let ?body = "\<lambda>m acc. and_then (F m) (\<lambda>freq.
         if freq \<le> 0 \<or> freq \<ge> 1 then Inr acc
         else let weight = W freq in for_each [0..<rows M] (add_weighted M m weight) acc)"
  let ?S = "\<lambda>j p. \<Sum>m<j. contribution M f W p m"
  let ?out = "add_rows out (rows M) (?S j)"
  from Suc.prems have j: "j < cols M" "j \<le> cols M" by simp_all
  from Suc.IH [OF j(2)] have loop: "for_each [0..<j] ?body out = Inr ?out" .
  have Fj: "F j = Inr (f j)" using assms(1) j(1) by simp
  have "?body j ?out = Inr (add_rows out (rows M) (?S (Suc j)))"
  proof (cases "f j \<le> 0 \<or> f j \<ge> 1")
    case True
    then have "?S (Suc j) = ?S j" by (simp add: contribution_def fun_eq_iff)
    then show ?thesis using True Fj by simp
  next
    case False
    have "for_each [0..<rows M] (add_weighted M j (W (f j))) ?out
        = Inr (add_rows ?out (rows M) (\<lambda>p. cell M p j * W (f j)))"
      using weighted_rows [OF j(1), of ?out "rows M" "W (f j)"] assms(2,3) by simp
    moreover have "add_rows ?out (rows M) (\<lambda>p. cell M p j * W (f j))
        = add_rows out (rows M) (?S (Suc j))"
      using False by (simp add: add_rows_add_rows contribution_def)
    ultimately show ?thesis using False Fj by simp
  qed
  then show ?case using loop by (simp add: for_each_snoc)
qed

lemma freq_example:
  "getMarkerFrequency (matrix_of [[- 1], [1], [1], [1]]) 0 = Inr (1 / 2)"
  by (simp add: getMarkerFrequency_def matrix_of_def freq_body_def mat_get_def int_cast_def
      int_castable_small trunc_int_small int_castable_minus_one trunc_int_minus_one int_add_def INT_MIN_def INT_MAX_def)

lemma freq_control_example:
  "getMarkerFrequencyFromControl (matrix_of [[- 1], [1], [1], [1]]) [0, 0, 0, 0] 0 = Inr (1 / 2)"
  by (simp add: getMarkerFrequencyFromControl_def matrix_of_def freq_control_body_def mat_get_def
      vec_get_def int_add_def INT_MIN_def INT_MAX_def)

text \<open>
  C1, as the code has it. For a genotype matrix whose entries convert to \<open>int\<close>, with at
  most \<open>2^30 - 2\<close> rows and a phenotype value per sample, the score that \<open>fpCollapse\<close> and
  both variants of \<open>madsonBrowningCollapse\<close> give sample \<open>p\<close> is the sum over the markers
  of the marker's contribution: zero when the marker's frequency estimate is at most 0
  or at least 1, and genotype times weight otherwise. The genotype enters the product
  as it is, negative (missing) or not; no marker is left out because the sample's genotype
  is missing.
\<close>

theorem weighted_collapse_score:
  assumes "\<forall>p<rows M. \<forall>m<cols M. int_castable (cell M p m)"
    and "rows M \<le> length ph" and "rows M \<le> 1073741822" and "p < rows M"
  shows "entry (fpCollapse M (Some out0)) p 0 =
           Inr (weighted_score M (\<lambda>m. projr (getMarkerFrequency M m))
                  (\<lambda>q. 1 / sqrt (q * (1 - q))) p)
       \<and> entry (madsonBrowningCollapse_matrix (Some M) (Some out0)) p 0 =
           Inr (weighted_score M (\<lambda>m. projr (getMarkerFrequency M m))
                  (\<lambda>q. 1 / sqrt (q * (1 - q))) p)
       \<and> entry (madsonBrowningCollapse_pheno M ph (Some out0)) p 0 =
           Inr (weighted_score M (\<lambda>m. projr (getMarkerFrequencyFromControl M ph m))
                  (\<lambda>q. 1 / sqrt (q * (1 - q) * real (rows M))) p)"
proof -
  let ?z = "Zero (Dimension out0 (rows M) 1)"
  let ?f = "\<lambda>m. projr (getMarkerFrequency M m)"
  let ?g = "\<lambda>m. projr (getMarkerFrequencyFromControl M ph m)"
  have z: "rows ?z = rows M" "0 < cols ?z" "cell ?z p 0 = 0"
    by (simp_all add: Zero_def Dimension_def)
  have f: "\<forall>m<cols M. getMarkerFrequency M m = Inr (?f m)"
  proof (intro allI impI)
    fix m assume "m < cols M"
    with getMarkerFrequency_total [of m M] assms(1,3)
    obtain x where "getMarkerFrequency M m = Inr x" by auto
    then show "getMarkerFrequency M m = Inr (?f m)" by simp
  qed
  have g: "\<forall>m<cols M. getMarkerFrequencyFromControl M ph m = Inr (?g m)"
  proof (intro allI impI)
    fix m assume "m < cols M"
    with getMarkerFrequencyFromControl_total [of m M ph] assms(2,3)
    obtain x where "getMarkerFrequencyFromControl M ph m = Inr x" by auto
    then show "getMarkerFrequencyFromControl M ph m = Inr (?g m)" by simp
  qed
  have fp: "fpCollapse M (Some out0) =
      Inr (add_rows ?z (rows M)
             (\<lambda>p. \<Sum>m<cols M. contribution M ?f (\<lambda>q. 1 / sqrt (q * (1 - q))) p m))"
    using weighted_markers [OF f z(1,2), of "cols M" "\<lambda>q. 1 / sqrt (q * (1 - q))"]
    by (simp add: fpCollapse_def)
  have mb: "madsonBrowningCollapse_matrix (Some M) (Some out0) =
      Inr (add_rows ?z (rows M)
             (\<lambda>p. \<Sum>m<cols M. contribution M ?f (\<lambda>q. 1 / sqrt (q * (1 - q))) p m))"
    using weighted_markers [OF f z(1,2), of "cols M" "\<lambda>q. 1 / sqrt (q * (1 - q))"]
    by (simp add: madsonBrowningCollapse_matrix_def)
  have ph: "madsonBrowningCollapse_pheno M ph (Some out0) =
      Inr (add_rows ?z (rows M)
             (\<lambda>p. \<Sum>m<cols M. contribution M ?g
                     (\<lambda>q. 1 / sqrt (q * (1 - q) * real (rows M))) p m))"
    using weighted_markers [OF g z(1,2), of "cols M"
        "\<lambda>q. 1 / sqrt (q * (1 - q) * real (rows M))"]
    by (simp add: madsonBrowningCollapse_pheno_def)
  show ?thesis
    using assms(4) z
    by (simp add: fp mb ph entry_def mat_get_def add_rows_def weighted_score_def)
qed

theorem weighted_collapse_score_witness:
  "entry (fpCollapse (matrix_of [[- 1], [1], [1], [1]]) (Some (matrix_of []))) 0 0 = Inr (- 2)
   \<and> entry (madsonBrowningCollapse_matrix (Some (matrix_of [[- 1], [1], [1], [1]]))
        (Some (matrix_of []))) 0 0 = Inr (- 2)
   \<and> entry (madsonBrowningCollapse_pheno (matrix_of [[- 1], [1], [1], [1]]) [0, 0, 0, 0]
        (Some (matrix_of []))) 0 0 = Inr (- 1)"
proof -
  have "weighted_score (matrix_of [[- 1], [1], [1], [1]])
          (\<lambda>m. projr (getMarkerFrequency (matrix_of [[- 1], [1], [1], [1]]) m))
          (\<lambda>q. 1 / sqrt (q * (1 - q))) 0 = - 2"
    using freq_example
    by (simp add: weighted_score_def contribution_def sqrt_quarter matrix_of_def)
  moreover have "weighted_score (matrix_of [[- 1], [1], [1], [1]])
          (\<lambda>m. projr (getMarkerFrequencyFromControl (matrix_of [[- 1], [1], [1], [1]]) [0, 0, 0, 0] m))
          (\<lambda>q. 1 / sqrt (q * (1 - q) * real (rows (matrix_of [[- 1], [1], [1], [1]])))) 0 = - 1"
    using freq_control_example
    by (simp add: weighted_score_def contribution_def matrix_of_def)
  moreover have "\<forall>p<rows (matrix_of [[- 1], [1], [1], [1]]).
      \<forall>m<cols (matrix_of [[- 1], [1], [1], [1]]).
        int_castable (cell (matrix_of [[- 1], [1], [1], [1]]) p m)"
    by (simp add: matrix_of_def less_Suc_eq int_castable_small int_castable_minus_one)
  ultimately show ?thesis
    using weighted_collapse_score [of "matrix_of [[- 1], [1], [1], [1]]" "[0, 0, 0, 0]" 0
        "matrix_of []"]
    by (simp add: matrix_of_def)
qed

text \<open>
  C1, as stated, fails. In the one-marker matrix with genotypes \<open>-1\<close> and \<open>1\<close> the first
  sample is missing at the marker, the marker's frequency is \<open>1/2\<close>, its weight 2, and
  the sample's score is \<open>-2\<close>, not 0, in \<open>fpCollapse\<close> and in the matrix-pointer
  \<open>madsonBrowningCollapse\<close>. In the control-frequency variant a single control sample
  with genotype \<open>-1\<close> has the frequency estimate \<open>1/2\<close>, the weight 2 and the score
  \<open>-2\<close>.
\<close>

theorem weighted_collapse_missing_genotype:
  "cell (matrix_of [[- 1], [1]]) 0 0 < 0
   \<and> entry (fpCollapse (matrix_of [[- 1], [1]]) (Some (matrix_of []))) 0 0 = Inr (- 2)
   \<and> entry (madsonBrowningCollapse_matrix (Some (matrix_of [[- 1], [1]]))
        (Some (matrix_of []))) 0 0 = Inr (- 2)
   \<and> entry (madsonBrowningCollapse_pheno (matrix_of [[- 1]]) [0] (Some (matrix_of []))) 0 0
        = Inr (- 2)"
  by (simp add: matrix_of_def fpCollapse_def madsonBrowningCollapse_matrix_def
      madsonBrowningCollapse_pheno_def getMarkerFrequency_def getMarkerFrequencyFromControl_def
      freq_body_def freq_control_body_def add_weighted_def Zero_def Dimension_def
      entry_def mat_get_def mat_put_def vec_get_def int_cast_def int_add_def
      int_castable_small trunc_int_small int_castable_minus_one trunc_int_minus_one INT_MIN_def INT_MAX_def
      sqrt_quarter)

text \<open>
  C6. \<open>fpCollapse\<close> and the matrix-pointer variant of \<open>madsonBrowningCollapse\<close> return the
  same result on every genotype matrix and every output pointer, failures included.
\<close>

theorem fpCollapse_eq_madsonBrowningCollapse:
  "fpCollapse M out = madsonBrowningCollapse_matrix (Some M) out"
  by (cases out) (simp_all add: fpCollapse_def madsonBrowningCollapse_matrix_def)

section \<open>Properties of the summaries\<close>

lemma size_to_int_small: "k < 2147483648 \<Longrightarrow> size_to_int k = int k"
  by (simp add: size_to_int_def)

lemma Summary_add_result:
  assumes "v \<noteq> []" and "length v < 2147483648"
  shows "Summary_add cm cs v s = Inr (summary_of cm cs v)"
proof -
  let ?n = "length v"
  have n: "0 < ?n" using assms(1) by simp
  have k: "size_to_int ?n = int ?n" using assms(2) by (rule size_to_int_small)
  have idx: "trunc_int (real ?n * q) = \<lfloor>real ?n * q\<rfloor> \<and> 0 \<le> \<lfloor>real ?n * q\<rfloor>
      \<and> \<lfloor>real ?n * q\<rfloor> < int ?n" if "0 \<le> q" "q < 1" for q
  proof -
    have "0 \<le> real ?n * q" using that by simp
    moreover have "real ?n * q < real ?n" using that n by simp
    ultimately show ?thesis by (simp add: trunc_int_def floor_less_iff)
  qed
  have a: "vec_at_double (sort v) (real ?n * q) = Inr (sort v ! nat \<lfloor>real ?n * q\<rfloor>)"
    if "0 \<le> q" "q < 1" for q
    using idx [OF that] by (simp add: vec_at_double_def vec_at_def)
  have mn: "vec_at (sort v) 0 = Inr (sort v ! 0)"
    using n by (simp add: vec_at_def)
  have mx: "vec_at (sort v) (int ?n - 1) = Inr (sort v ! (?n - 1))"
    using n by (simp add: vec_at_def nat_diff_distrib')
  have "Summary_add cm cs v s =
      Inr (s\<lparr>s_n := int ?n, s_min := sort v ! 0,
             s_q1 := sort v ! nat \<lfloor>real ?n * 0.25\<rfloor>,
             s_median := sort v ! nat \<lfloor>real ?n * 0.5\<rfloor>,
             s_q3 := sort v ! nat \<lfloor>real ?n * 0.75\<rfloor>,
             s_max := sort v ! (?n - 1),
             s_mean := cm v, s_sd := cs v\<rparr>)"
    using a [of "0.25"] a [of "0.5"] a [of "0.75"] mn mx
    by (simp add: Summary_add_def k Let_def)
  then show ?thesis by (simp add: summary_of_def)
qed

text \<open>
  C7. For a non-empty observation vector \<open>v\<close> (of a size that fits the \<open>int\<close> field
  \<open>n\<close>), \<open>Summary::add\<close> returns with \<open>n\<close> the size of \<open>v\<close>, \<open>min\<close> and \<open>max\<close> the
  first and last element of the sorted copy, and \<open>q1\<close>, \<open>median\<close>, \<open>q3\<close> the elements of
  the sorted copy at the indices \<open>floor (n * 0.25)\<close>, \<open>floor (n * 0.5)\<close> and
  \<open>floor (n * 0.75)\<close>; on \<open>[1, 2, 3, 4, 5]\<close> that is \<open>n = 5\<close>, \<open>min = 1\<close>, \<open>q1 = 2\<close>,
  \<open>median = 3\<close>, \<open>q3 = 4\<close>, \<open>max = 5\<close>.
\<close>

theorem Summary_add_nearest_rank:
  assumes "v \<noteq> []" and "length v < 2147483648"
  shows "(\<exists>s'. Summary_add calculateMean calculateSampleSD v s = Inr s'
        \<and> s_n s' = int (length v)
        \<and> s_min s' = sort v ! 0
        \<and> s_max s' = sort v ! (length v - 1)
        \<and> s_q1 s' = sort v ! nat \<lfloor>real (length v) * 0.25\<rfloor>
        \<and> s_median s' = sort v ! nat \<lfloor>real (length v) * 0.5\<rfloor>
        \<and> s_q3 s' = sort v ! nat \<lfloor>real (length v) * 0.75\<rfloor>)
     \<and> (\<exists>s'. Summary_add calculateMean calculateSampleSD [1, 2, 3, 4, 5] s = Inr s'
        \<and> s_n s' = 5 \<and> s_min s' = 1 \<and> s_q1 s' = 2 \<and> s_median s' = 3 \<and> s_q3 s' = 4
        \<and> s_max s' = 5)"
proof
  show "\<exists>s'. Summary_add calculateMean calculateSampleSD v s = Inr s'
        \<and> s_n s' = int (length v)
        \<and> s_min s' = sort v ! 0
        \<and> s_max s' = sort v ! (length v - 1)
        \<and> s_q1 s' = sort v ! nat \<lfloor>real (length v) * 0.25\<rfloor>
        \<and> s_median s' = sort v ! nat \<lfloor>real (length v) * 0.5\<rfloor>
        \<and> s_q3 s' = sort v ! nat \<lfloor>real (length v) * 0.75\<rfloor>"
    using Summary_add_result [OF assms] by (simp add: summary_of_def)
next
  have "Summary_add calculateMean calculateSampleSD [1, 2, 3, 4, 5] s
      = Inr (summary_of calculateMean calculateSampleSD [1, 2, 3, 4, 5])"
    by (rule Summary_add_result) simp_all
  moreover have "\<lfloor>5 * 0.25 :: real\<rfloor> = 1" "\<lfloor>5 * 0.5 :: real\<rfloor> = 2" "\<lfloor>5 * 0.75 :: real\<rfloor> = 3"
    by (simp_all add: floor_eq_iff)
  ultimately show "\<exists>s'. Summary_add calculateMean calculateSampleSD [1, 2, 3, 4, 5] s = Inr s'
        \<and> s_n s' = 5 \<and> s_min s' = 1 \<and> s_q1 s' = 2 \<and> s_median s' = 3 \<and> s_q3 s' = 4
        \<and> s_max s' = 5"
    by (simp add: summary_of_def)
qed

theorem Summary_add_nearest_rank_witness:
  "\<exists>s'. Summary_add (\<lambda>v. sum_list v / real (length v)) (\<lambda>v. 0) [40, 10, 30, 20] Summary_init = Inr s'
        \<and> s_n s' = 4 \<and> s_min s' = 10 \<and> s_max s' = 40
        \<and> s_q1 s' = 20 \<and> s_median s' = 30 \<and> s_q3 s' = 40"
  using Summary_add_nearest_rank [of "[40, 10, 30, 20]" "\<lambda>v. sum_list v / real (length v)"
      "\<lambda>v. 0" Summary_init]
  by simp

lemma column_loop:
  assumes "col < cols M"
  shows "k \<le> rows M \<Longrightarrow>
    \<exists>v. for_each [0..<k] (\<lambda>i v. and_then (mat_get M i col) (vec_set v i))
           (replicate (rows M) 0) = Inr v
       \<and> length v = rows M \<and> (\<forall>i<k. v ! i = cell M i col)"
proof (induction k)
  case 0
  show ?case by simp
next
  case (Suc k)
  let ?body = "\<lambda>i v. and_then (mat_get M i col) (vec_set v i)"
  from Suc obtain v where loop: "for_each [0..<k] ?body (replicate (rows M) 0) = Inr v"
    and inv: "length v = rows M" "\<forall>i<k. v ! i = cell M i col"
    by auto
  have k: "k < rows M" using Suc.prems by simp
  have step: "?body k v = Inr (v[k := cell M k col])"
    using k inv(1) assms by (simp add: mat_get_def vec_set_def)
  have "\<forall>i<Suc k. v[k := cell M k col] ! i = cell M i col"
    using inv k by (auto simp: less_Suc_eq nth_list_update)
  then show ?case
    using loop step inv(1) by (simp add: for_each_snoc)
qed

lemma column_built:
  assumes "col < cols M"
  shows "for_each [0..<rows M] (\<lambda>i v. and_then (mat_get M i col) (vec_set v i))
           (replicate (rows M) 0) = Inr (column M col)"
proof -
  from column_loop [OF assms, of "rows M"] obtain v
    where loop: "for_each [0..<rows M] (\<lambda>i v. and_then (mat_get M i col) (vec_set v i))
           (replicate (rows M) 0) = Inr v"
      and inv: "length v = rows M" "\<forall>i<rows M. v ! i = cell M i col"
    by auto
  have "v = column M col"
    using inv by (intro nth_equalityI) (simp_all add: column_def)
  then show ?thesis using loop by simp
qed

lemma recordCovariateColumn_result:
  assumes "col < cols M" and "0 < rows M" and "rows M < 2147483648"
  shows "recordCovariateColumn cm cs M col h
    = Inr (h\<lparr>cov := cov h @ [summary_of cm cs (column M col)]\<rparr>)"
proof -
  have "column M col \<noteq> []" "length (column M col) < 2147483648"
    using assms(2,3) by (simp_all add: column_def)
  then have "Summary_add cm cs (column M col) Summary_init = Inr (summary_of cm cs (column M col))"
    by (rule Summary_add_result)
  then show ?thesis
    by (simp add: recordCovariateColumn_def column_built [OF assms(1)])
qed

lemma recordCovariate_loop:
  assumes "0 < rows M" and "rows M < 2147483648"
  shows "j \<le> cols M \<Longrightarrow>
    for_each [0..<j]
       (\<lambda>i h'. and_then (GetColumnLabel M i) (\<lambda>l.
            recordCovariateColumn cm cs M i (h'\<lparr>covLabel := covLabel h' @ [l]\<rparr>)))
       (h\<lparr>covLabel := [], cov := []\<rparr>)
    = Inr (h\<lparr>covLabel := map (columnLabel M) [0..<j],
               cov := map (\<lambda>c. summary_of cm cs (column M c)) [0..<j]\<rparr>)"
proof (induction j)
  case 0
  show ?case by simp
next
  case (Suc j)
  let ?body = "\<lambda>i h'. and_then (GetColumnLabel M i) (\<lambda>l.
            recordCovariateColumn cm cs M i (h'\<lparr>covLabel := covLabel h' @ [l]\<rparr>))"
  let ?h = "h\<lparr>covLabel := map (columnLabel M) [0..<j],
               cov := map (\<lambda>c. summary_of cm cs (column M c)) [0..<j]\<rparr>"
  from Suc.prems have j: "j < cols M" "j \<le> cols M" by simp_all
  from Suc.IH [OF j(2)] have loop: "for_each [0..<j] ?body (h\<lparr>covLabel := [], cov := []\<rparr>) = Inr ?h" .
  have "?body j ?h = Inr (h\<lparr>covLabel := map (columnLabel M) [0..<Suc j],
               cov := map (\<lambda>c. summary_of cm cs (column M c)) [0..<Suc j]\<rparr>)"
    using j(1) by (simp add: GetColumnLabel_def recordCovariateColumn_result [OF j(1) assms])
  then show ?case using loop by (simp add: for_each_snoc)
qed

text \<open>
  C10. \<open>recordCovariate\<close> on a matrix with at least one row (or without columns) returns
  the same header whatever covariate labels and summaries were recorded before; the
  header it returns holds exactly one label and one summary per column of the matrix, in
  column order, and its phenotype labels, phenotype summaries, transformed-phenotype
  summary and inverse-normal flag are those of the header it was called on.
\<close>

theorem recordCovariate_replaces:
  assumes "0 < rows M \<or> cols M = 0" and "rows M < 2147483648"
  shows "recordCovariate calculateMean calculateSampleSD M (h\<lparr>covLabel := ls, cov := ss\<rparr>)
           = recordCovariate calculateMean calculateSampleSD M h
     \<and> (\<exists>h'. recordCovariate calculateMean calculateSampleSD M h = Inr h'
          \<and> covLabel h' = map (columnLabel M) [0..<cols M]
          \<and> cov h' = map (\<lambda>c. summary_of calculateMean calculateSampleSD (column M c)) [0..<cols M]
          \<and> length (covLabel h') = cols M \<and> length (cov h') = cols M
          \<and> phenoLabel h' = phenoLabel h \<and> pheno h' = pheno h
          \<and> transformedPheno h' = transformedPheno h
          \<and> inverseNormalized h' = inverseNormalized h)"
proof
  show "recordCovariate calculateMean calculateSampleSD M (h\<lparr>covLabel := ls, cov := ss\<rparr>)
           = recordCovariate calculateMean calculateSampleSD M h"
    by (simp add: recordCovariate_def)
next
  show "\<exists>h'. recordCovariate calculateMean calculateSampleSD M h = Inr h'
          \<and> covLabel h' = map (columnLabel M) [0..<cols M]
          \<and> cov h' = map (\<lambda>c. summary_of calculateMean calculateSampleSD (column M c)) [0..<cols M]
          \<and> length (covLabel h') = cols M \<and> length (cov h') = cols M
          \<and> phenoLabel h' = phenoLabel h \<and> pheno h' = pheno h
          \<and> transformedPheno h' = transformedPheno h
          \<and> inverseNormalized h' = inverseNormalized h"
  proof (cases "cols M = 0")
    case True
    then show ?thesis by (simp add: recordCovariate_def)
  next
    case False
    with assms have "0 < rows M" by simp
    from recordCovariate_loop [OF this assms(2), of "cols M" calculateMean calculateSampleSD h]
    show ?thesis by (simp add: recordCovariate_def)
  qed
qed

theorem recordCovariate_replaces_witness:
  "\<exists>h'. recordCovariate (\<lambda>v. sum_list v / real (length v)) (\<lambda>v. 0)
          ((matrix_of [[10], [20], [30], [40]])\<lparr>columnLabel := (\<lambda>c. ''AGE'')\<rparr>)
          (SummaryHeader_init\<lparr>covLabel := [''SEX''], cov := [Summary_init]\<rparr>) = Inr h'
      \<and> covLabel h' = [''AGE''] \<and> length (cov h') = 1 \<and> pheno h' = []"
  using recordCovariate_replaces [where
      M = "(matrix_of [[10], [20], [30], [40]])\<lparr>columnLabel := (\<lambda>c. ''AGE'')\<rparr>"
      and calculateMean = "\<lambda>v. sum_list v / real (length v)" and calculateSampleSD = "\<lambda>v. 0"
      and h = "SummaryHeader_init\<lparr>covLabel := [''SEX''], cov := [Summary_init]\<rparr>"]
  by (auto simp: matrix_of_def SummaryHeader_init_def)

end
